theory Spec2Isabelle
  imports Complex_Main "HOL-Library.Sublist" "HOL-Library.Multiset"
begin

section \<open>Rain Flow: the forecast pipeline of \<^verbatim>\<open>rain_flow.py\<close>\<close>

subsection \<open>Values\<close>

text \<open>
  The forecast is whatever \<^verbatim>\<open>r.json()\<close> returns: a Python value built from a JSON
  text.  A JSON number is a Python \<^verbatim>\<open>int\<close> or \<^verbatim>\<open>float\<close>; the program only ever
  compares it with \<^verbatim>\<open>1\<close>, and Python compares the two kinds by exact numeric value,
  so one constructor \<open>Fin\<close> carries the value of both.  The non-finite floats that
  Python's JSON reader also accepts are kept apart.  A \<^verbatim>\<open>dict\<close> is an association
  list read with \<open>map_of\<close> (its keys are strings and pairwise distinct); a
  \<^verbatim>\<open>str\<close> is a list of characters.
\<close>

datatype number = Fin rat | PosInf | NegInf | NaN

datatype json =
    JNull
  | JBool bool
  | JNum number
  | JStr string
  | JArr "json list"
  | JObj "(string \<times> json) list"

text \<open>
  The exceptions the run can meet.  The text of an \<^verbatim>\<open>HTTPError\<close> ends in
  \<^verbatim>\<open>for url:\<close> and the URL of the request, and the text of a \<^verbatim>\<open>ConnectionError\<close>
  names that URL too: both carry it here.  (The HTTP library writes the URL as it sent
  it, with the characters that may not stand in a URL percent-encoded; the model keeps
  the URL as the task built it.)
\<close>

datatype py_error =
    KeyError string
  | TypeError
  | AttributeError
  | HTTPError nat string
  | ConnectionError string
  | JSONDecodeError

subsection \<open>The Python operations that \<^verbatim>\<open>is_raining_this_week\<close> applies\<close>

text \<open>\<^verbatim>\<open>x[k]\<close> with a string key: only a dict accepts it, and a missing key raises.\<close>

fun subscript :: "json \<Rightarrow> string \<Rightarrow> py_error + json" where
  "subscript (JObj kvs) k = (case map_of kvs k of None \<Rightarrow> Inl (KeyError k) | Some v \<Rightarrow> Inr v)"
| "subscript _ k = Inl TypeError"

text \<open>
  \<^verbatim>\<open>for forecast in x\<close>: a list gives its elements, a dict its keys, a string its
  characters as one-character strings; nothing else is iterable.
\<close>

fun iterate :: "json \<Rightarrow> py_error + json list" where
  "iterate (JArr xs) = Inr xs"
| "iterate (JObj kvs) = Inr (map (\<lambda>kv. JStr (fst kv)) kvs)"
| "iterate (JStr s) = Inr (map (\<lambda>c. JStr [c]) s)"
| "iterate _ = Inl TypeError"

text \<open>
  \<^verbatim>\<open>k in x\<close> with a string \<open>k\<close>: key membership for a dict, element membership for
  a list, substring test for a string.
\<close>

fun contains :: "json \<Rightarrow> string \<Rightarrow> py_error + bool" where
  "contains (JObj kvs) k = Inr (map_of kvs k \<noteq> None)"
| "contains (JArr xs) k = Inr (JStr k \<in> set xs)"
| "contains (JStr s) k = Inr (sublist k s)"
| "contains _ k = Inl TypeError"

text \<open>\<^verbatim>\<open>x.get(k, d)\<close>: a method of dicts only.\<close>

fun get :: "json \<Rightarrow> string \<Rightarrow> json \<Rightarrow> py_error + json" where
  "get (JObj kvs) k d = Inr (case map_of kvs k of None \<Rightarrow> d | Some v \<Rightarrow> v)"
| "get _ k d = Inl AttributeError"

text \<open>\<^verbatim>\<open>s >= 1\<close>: defined on numbers and on booleans (\<^verbatim>\<open>True\<close> is \<^verbatim>\<open>1\<close>).\<close>

fun number_ge_1 :: "number \<Rightarrow> bool" where
  "number_ge_1 (Fin q) = (q \<ge> 1)"
| "number_ge_1 PosInf = True"
| "number_ge_1 NegInf = False"
| "number_ge_1 NaN = False"

fun ge_1 :: "json \<Rightarrow> py_error + bool" where
  "ge_1 (JNum n) = Inr (number_ge_1 n)"
| "ge_1 (JBool b) = Inr b"
| "ge_1 _ = Inl TypeError"

subsection \<open>The Rain Classifier\<close>

text \<open>
  \<^verbatim>\<open>[forecast["rain"].get("3h", 0) for forecast in ... if "rain" in forecast]\<close>:
  the entries are visited in order; the first operation that raises ends the
  comprehension.
\<close>

fun rain_values :: "json list \<Rightarrow> py_error + json list" where
  "rain_values [] = Inr []"
| "rain_values (forecast # rest) =
     (case contains forecast ''rain'' of
        Inl e \<Rightarrow> Inl e
      | Inr False \<Rightarrow> rain_values rest
      | Inr True \<Rightarrow>
          (case subscript forecast ''rain'' of
             Inl e \<Rightarrow> Inl e
           | Inr r \<Rightarrow>
               (case get r ''3h'' (JNum (Fin 0)) of
                  Inl e \<Rightarrow> Inl e
                | Inr v \<Rightarrow>
                    (case rain_values rest of
                       Inl e \<Rightarrow> Inl e
                     | Inr vs \<Rightarrow> Inr (v # vs)))))"

text \<open>\<^verbatim>\<open>[s >= 1 for s in rain]\<close>\<close>

fun at_least_one :: "json list \<Rightarrow> py_error + bool list" where
  "at_least_one [] = Inr []"
| "at_least_one (s # rest) =
     (case ge_1 s of
        Inl e \<Rightarrow> Inl e
      | Inr b \<Rightarrow> (case at_least_one rest of Inl e \<Rightarrow> Inl e | Inr bs \<Rightarrow> Inr (b # bs)))"

text \<open>\<^verbatim>\<open>sum\<close> of a list of booleans: \<^verbatim>\<open>True\<close> counts 1, \<^verbatim>\<open>False\<close> counts 0.\<close>

definition sum_bools :: "bool list \<Rightarrow> int" where
  "sum_bools bs = sum_list (map (\<lambda>b. if b then 1 else 0) bs)"

definition is_raining_this_week :: "json \<Rightarrow> py_error + bool" where
  "is_raining_this_week data =
     (case subscript data ''list'' of
        Inl e \<Rightarrow> Inl e
      | Inr l \<Rightarrow>
          (case iterate l of
             Inl e \<Rightarrow> Inl e
           | Inr forecasts \<Rightarrow>
               (case rain_values forecasts of
                  Inl e \<Rightarrow> Inl e
                | Inr rain \<Rightarrow>
                    (case at_least_one rain of
                       Inl e \<Rightarrow> Inl e
                     | Inr bs \<Rightarrow> Inr (if sum_bools bs \<ge> 1 then True else False)))))"

subsection \<open>The Forecast Fetcher\<close>

text \<open>
  What a run lets the outside world see is kept as a trace of events: the link artifact
  recorded by \<^verbatim>\<open>create_link\<close>, the HTTP GET issued by \<^verbatim>\<open>requests.get\<close>, the wait
  before a retry, the message a Slack task posts (with the URL of the webhook it posts
  to), and the line the flow runner logs when a task raises (with the name of the task
  and the exception).
\<close>

datatype event =
    Link string
  | Get string
  | Wait nat
  | Slack string string
  | Log string py_error

text \<open>
  What an HTTP request comes back with is given by the environment: no connection at
  all, or a response with its status code and its body, \<open>None\<close> when the body is not
  a JSON text.
\<close>

datatype http_outcome = NoConnection | Response nat "json option"

definition base_url :: string where
  "base_url = ''http://api.openweathermap.org/data/2.5/forecast?''"

definition forecast_url :: "string \<Rightarrow> string \<Rightarrow> string" where
  "forecast_url city api_key = base_url @ ''appid='' @ api_key @ ''&q='' @ city"

text \<open>
  \<^verbatim>\<open>r.raise_for_status()\<close> raises \<^verbatim>\<open>HTTPError\<close> for the client errors (400 to 499)
  and the server errors (500 to 599), and for no other status code.
\<close>

definition raise_for_status :: "nat \<Rightarrow> string \<Rightarrow> py_error + unit" where
  "raise_for_status status_code url =
     (if 400 \<le> status_code \<and> status_code < 600 then Inl (HTTPError status_code url)
      else Inr ())"

definition pull_forecast :: "string \<Rightarrow> string \<Rightarrow> http_outcome \<Rightarrow> event list \<times> (py_error + json)" where
  "pull_forecast city api_key reply =
     (let url = forecast_url city api_key in
      ([Link url, Get url],
       (case reply of
          NoConnection \<Rightarrow> Inl (ConnectionError url)
        | Response status_code body \<Rightarrow>
            (case raise_for_status status_code url of
               Inl e \<Rightarrow> Inl e
             | Inr _ \<Rightarrow> (case body of None \<Rightarrow> Inl JSONDecodeError | Some data \<Rightarrow> Inr data)))))"

subsection \<open>The tasks as the flow runs them\<close>

text \<open>
  The task decorator of \<^verbatim>\<open>pull_forecast\<close> reads
  \<^verbatim>\<open>@task(max_retries=2, retry_delay=datetime.timedelta(seconds=5))\<close>.
\<close>

definition max_retries :: nat where
  "max_retries = 2"

definition retry_delay :: nat where
  "retry_delay = 5"

text \<open>
  When the body of a task raises, the flow runner logs the exception under the name of
  the task.
\<close>

definition logged :: "string \<Rightarrow> event list \<times> (py_error + 'a) \<Rightarrow> event list \<times> (py_error + 'a)" where
  "logged name run =
     (case run of
        (evs, Inl e) \<Rightarrow> (evs @ [Log name e], Inl e)
      | (evs, Inr v) \<Rightarrow> (evs, Inr v))"

text \<open>
  The flow runner executes a task with \<^verbatim>\<open>max_retries=n\<close> at most \<open>n + 1\<close> times: a
  task that raises and has retries left is run again after the delay, and a task that
  raises with no retry left has failed.  The first argument counts the retries left,
  \<open>attempt k\<close> is the \<open>k\<close>-th execution of the task body.
\<close>

fun run_with_retries ::
  "nat \<Rightarrow> nat \<Rightarrow> (nat \<Rightarrow> event list \<times> (py_error + 'a)) \<Rightarrow> nat \<Rightarrow> event list \<times> (py_error + 'a)" where
  "run_with_retries 0 delay attempt k = attempt k"
| "run_with_retries (Suc n) delay attempt k =
     (case attempt k of
        (evs, Inr v) \<Rightarrow> (evs, Inr v)
      | (evs, Inl e) \<Rightarrow>
          (case run_with_retries n delay attempt (Suc k) of
             (evs', r) \<Rightarrow> (evs @ [Wait delay] @ evs', r)))"

text \<open>
  The final state of a task in a flow run.  A failed task keeps the exception, whose
  text is the message of the state.
\<close>

datatype 'a state = Success 'a | Failed py_error | TriggerFailed | Skipped

definition finished :: "py_error + 'a \<Rightarrow> 'a state" where
  "finished r = (case r of Inl e \<Rightarrow> Failed e | Inr v \<Rightarrow> Success v)"

text \<open>A task has fired when the flow runner has executed its body, whatever came of it.\<close>

fun fired :: "'a state \<Rightarrow> bool" where
  "fired (Success v) = True"
| "fired (Failed e) = True"
| "fired TriggerFailed = False"
| "fired Skipped = False"

text \<open>
  A task runs once its upstream task has succeeded, on the value that one returned;
  when the upstream task has not succeeded the task is not run (its trigger fails).
\<close>

definition run_task ::
  "string \<Rightarrow> 'a state \<Rightarrow> ('a \<Rightarrow> py_error + 'b) \<Rightarrow> event list \<times> 'b state" where
  "run_task name upstream body =
     (case upstream of
        Success v \<Rightarrow> (case logged name ([], body v) of (evs, r) \<Rightarrow> (evs, finished r))
      | _ \<Rightarrow> ([], TriggerFailed))"

text \<open>
  \<^verbatim>\<open>city = Parameter(name="City", default="San Francisco")\<close>: the value given at run
  time, or the default.
\<close>

definition city :: "string option \<Rightarrow> string" where
  "city given = (case given of None \<Rightarrow> ''San Francisco'' | Some c \<Rightarrow> c)"

record slack_task =
  message :: string
  webhook_secret :: string

definition rain_notification :: slack_task where
  "rain_notification =
     \<lparr>message = ''RAIN in the forecast for this week!'',
      webhook_secret = ''SLACK_WEBHOOK_URL_MHQ''\<rparr>"

definition dry_notification :: slack_task where
  "dry_notification =
     \<lparr>message = ''NO RAIN in the forecast for this week!'',
      webhook_secret = ''SLACK_WEBHOOK_URL_MHQ''\<rparr>"

text \<open>
  The body of a Slack task: it looks its webhook secret up, which raises when the
  secret store does not hold it, posts the message to the URL the secret gives, and
  calls \<^verbatim>\<open>raise_for_status\<close> on the response.  The secret store and the webhook's reply
  are given by the environment.
\<close>

definition slack_task_run ::
  "slack_task \<Rightarrow> (string \<Rightarrow> string option) \<Rightarrow> http_outcome \<Rightarrow> event list \<times> (py_error + unit)" where
  "slack_task_run t secrets reply =
     (case secrets (webhook_secret t) of
        None \<Rightarrow> ([], Inl (KeyError (webhook_secret t)))
      | Some url \<Rightarrow>
          ([Slack url (message t)],
           (case reply of
              NoConnection \<Rightarrow> Inl (ConnectionError url)
            | Response status_code body \<Rightarrow> raise_for_status status_code url)))"

text \<open>
  \<^verbatim>\<open>with case(rain, value): notification()\<close>: the task in the block runs when the
  upstream result equals \<open>value\<close> and is skipped when it differs; it does not run at
  all when the upstream task did not succeed.
\<close>

definition case_block ::
  "bool state \<Rightarrow> bool \<Rightarrow> slack_task \<Rightarrow> (string \<Rightarrow> string option) \<Rightarrow> http_outcome
     \<Rightarrow> event list \<times> unit state" where
  "case_block upstream val t secrets reply =
     (case upstream of
        Success b \<Rightarrow>
          (if b = val
           then (case logged ''SlackTask'' (slack_task_run t secrets reply) of
                   (evs, r) \<Rightarrow> (evs, finished r))
           else ([], Skipped))
      | _ \<Rightarrow> ([], TriggerFailed))"

subsection \<open>The flow\<close>

record flow_run =
  trace :: "event list"
  forecast_state :: "json state"
  rain_state :: "bool state"
  rain_notification_state :: "unit state"
  dry_notification_state :: "unit state"

text \<open>
  One run of \<^verbatim>\<open>Rain Flow\<close>, for the value given to the parameter \<^verbatim>\<open>City\<close> (if any),
  the API key the secret resolves to, the outcome of the \<open>k\<close>-th HTTP GET, the secret
  store the Slack tasks read and the webhook's reply to a post.
\<close>

definition flow ::
  "string option \<Rightarrow> string \<Rightarrow> (nat \<Rightarrow> http_outcome) \<Rightarrow> (string \<Rightarrow> string option) \<Rightarrow> http_outcome
     \<Rightarrow> flow_run" where
  "flow given api_key replies secrets webhook =
     (case run_with_retries max_retries retry_delay
             (\<lambda>k. logged ''pull_forecast'' (pull_forecast (city given) api_key (replies k))) 0 of
        (fetch_events, r) \<Rightarrow>
          (let forecast = finished r in
           (case run_task ''is_raining_this_week'' forecast is_raining_this_week of
              (classifier_events, rain) \<Rightarrow>
                (case case_block rain True rain_notification secrets webhook of
                   (rain_events, rain_n) \<Rightarrow>
                     (case case_block rain False dry_notification secrets webhook of
                        (dry_events, dry_n) \<Rightarrow>
                          \<lparr>trace = fetch_events @ classifier_events @ rain_events @ dry_events,
                           forecast_state = forecast,
                           rain_state = rain,
                           rain_notification_state = rain_n,
                           dry_notification_state = dry_n\<rparr>)))))"

text \<open>
  The notifications a run posted, its HTTP requests, and what it did apart from
  logging.
\<close>

fun is_slack :: "event \<Rightarrow> bool" where
  "is_slack (Slack w m) = True"
| "is_slack _ = False"

fun is_log :: "event \<Rightarrow> bool" where
  "is_log (Log t e) = True"
| "is_log _ = False"

definition notifications :: "flow_run \<Rightarrow> event list" where
  "notifications run = filter is_slack (trace run)"

definition requests :: "flow_run \<Rightarrow> string list" where
  "requests run = concat (map (\<lambda>ev. case ev of Get u \<Rightarrow> [u] | _ \<Rightarrow> []) (trace run))"

definition effects :: "flow_run \<Rightarrow> event list" where
  "effects run = filter (\<lambda>ev. \<not> is_log ev) (trace run)"

subsection \<open>Forecast responses as the specification describes them\<close>

text \<open>
  The entry list of a response: the array under the key \<^verbatim>\<open>list\<close> of a JSON object.
\<close>

definition entries :: "json \<Rightarrow> json list option" where
  "entries data =
     (case data of
        JObj kvs \<Rightarrow> (case map_of kvs ''list'' of Some (JArr es) \<Rightarrow> Some es | _ \<Rightarrow> None)
      | _ \<Rightarrow> None)"

text \<open>
  The words of the specification, entry by entry: the precipitation field of an entry
  is its \<^verbatim>\<open>rain\<close> member, the value read from it is the one under \<^verbatim>\<open>3h\<close>, 0 when
  that sub-key is absent, and the entry counts when the value meets the threshold 1.0.
\<close>

definition precipitation :: "json \<Rightarrow> json option" where
  "precipitation entry = (case entry of JObj kvs \<Rightarrow> map_of kvs ''rain'' | _ \<Rightarrow> None)"

definition three_hour :: "json \<Rightarrow> json" where
  "three_hour p =
     (case p of
        JObj kvs \<Rightarrow> (case map_of kvs ''3h'' of None \<Rightarrow> JNum (Fin 0) | Some v \<Rightarrow> v)
      | _ \<Rightarrow> JNull)"

definition threshold :: rat where
  "threshold = 1"

definition meets_threshold :: "json \<Rightarrow> bool" where
  "meets_threshold v =
     (case v of
        JNum (Fin q) \<Rightarrow> threshold \<le> q
      | JNum PosInf \<Rightarrow> True
      | _ \<Rightarrow> False)"

definition entry_rains :: "json \<Rightarrow> bool" where
  "entry_rains entry =
     (case precipitation entry of None \<Rightarrow> False | Some p \<Rightarrow> meets_threshold (three_hour p))"

text \<open>
  A forecast entry as the data model has it: a mapping that optionally contains a
  precipitation mapping, which optionally contains a number under \<^verbatim>\<open>3h\<close>.
\<close>

definition well_formed_entry :: "json \<Rightarrow> bool" where
  "well_formed_entry entry =
     (case entry of
        JObj kvs \<Rightarrow>
          (case map_of kvs ''rain'' of
             None \<Rightarrow> True
           | Some (JObj p) \<Rightarrow>
               (case map_of p ''3h'' of None \<Rightarrow> True | Some (JNum n) \<Rightarrow> True | Some _ \<Rightarrow> False)
           | Some _ \<Rightarrow> False)
      | _ \<Rightarrow> False)"

text \<open>
  What one entry does to the classifier, whatever its shape: \<open>None\<close> when one of the
  operations applied to it raises, otherwise whether it counts towards the sum.
\<close>

definition verdict :: "json \<Rightarrow> bool option" where
  "verdict forecast =
     (case contains forecast ''rain'' of
        Inl e \<Rightarrow> None
      | Inr False \<Rightarrow> Some False
      | Inr True \<Rightarrow>
          (case subscript forecast ''rain'' of
             Inl e \<Rightarrow> None
           | Inr r \<Rightarrow>
               (case get r ''3h'' (JNum (Fin 0)) of
                  Inl e \<Rightarrow> None
                | Inr v \<Rightarrow> (case ge_1 v of Inl e \<Rightarrow> None | Inr b \<Rightarrow> Some b))))"

text \<open>The entries that do carry a 3-hour value.\<close>

definition has_three_hour :: "json \<Rightarrow> bool" where
  "has_three_hour entry =
     (case precipitation entry of
        Some (JObj p) \<Rightarrow> map_of p ''3h'' \<noteq> None
      | _ \<Rightarrow> False)"

text \<open>An environment that answers the successive HTTP requests from a list.\<close>

definition scripted :: "http_outcome list \<Rightarrow> nat \<Rightarrow> http_outcome" where
  "scripted rs k = (if k < length rs then rs ! k else NoConnection)"

text \<open>What the \<open>k\<close>-th execution of the body of \<^verbatim>\<open>pull_forecast\<close> returns or raises.\<close>

definition attempt :: "string option \<Rightarrow> string \<Rightarrow> (nat \<Rightarrow> http_outcome) \<Rightarrow> nat \<Rightarrow> py_error + json" where
  "attempt given api_key replies k = snd (pull_forecast (city given) api_key (replies k))"

text \<open>
  The trace and the state of the fetch stage with the request URL blanked out, where it
  stands in a link artifact, in a request or in the error of a failed fetch attempt.
\<close>

fun no_url :: "py_error \<Rightarrow> py_error" where
  "no_url (HTTPError status_code u) = HTTPError status_code []"
| "no_url (ConnectionError u) = ConnectionError []"
| "no_url e = e"

fun no_urls :: "event \<Rightarrow> event" where
  "no_urls (Link u) = Link []"
| "no_urls (Get u) = Get []"
| "no_urls (Log t e) = (if t = ''pull_forecast'' then Log t (no_url e) else Log t e)"
| "no_urls ev = ev"

fun no_url_state :: "'a state \<Rightarrow> 'a state" where
  "no_url_state (Failed e) = Failed (no_url e)"
| "no_url_state st = st"

fun no_url_result :: "py_error + 'a \<Rightarrow> py_error + 'a" where
  "no_url_result (Inl e) = Inl (no_url e)"
| "no_url_result (Inr v) = Inr v"

text \<open>The events that carry the request URL by construction.\<close>

fun is_link :: "event \<Rightarrow> bool" where
  "is_link (Link u) = True"
| "is_link _ = False"

fun is_get :: "event \<Rightarrow> bool" where
  "is_get (Get u) = True"
| "is_get _ = False"

text \<open>The secret store that holds the listed secrets.\<close>

definition secret_store :: "(string \<times> string) list \<Rightarrow> string \<Rightarrow> string option" where
  "secret_store kvs name = map_of kvs name"

section \<open>Properties of the Rain Classifier\<close>

subsection \<open>The classifier, entry by entry\<close>

lemma sum_bools_Cons: "sum_bools (b # bs) = (if b then 1 else 0) + sum_bools bs"
  by (simp add: sum_bools_def)

lemma sum_bools_nonneg: "0 \<le> sum_bools bs"
  by (induction bs) (simp_all add: sum_bools_def)

lemma sum_bools_ge_1: "(1 \<le> sum_bools bs) = (True \<in> set bs)"
proof (induction bs)
  case Nil
  show ?case by (simp add: sum_bools_def)
next
  case (Cons b bs)
  from sum_bools_nonneg [of bs] Cons show ?case
    by (cases b) (auto simp: sum_bools_Cons)
qed


lemma at_least_one_Cons_Inr:
  "at_least_one (v # vs) = Inr bs \<longleftrightarrow>
     (\<exists>b bs'. ge_1 v = Inr b \<and> at_least_one vs = Inr bs' \<and> bs = b # bs')"
  by (auto split: sum.splits)

lemma rain_values_Cons_Inr:
  "rain_values (f # fs) = Inr vs \<longleftrightarrow>
     (contains f ''rain'' = Inr False \<and> rain_values fs = Inr vs) \<or>
     (\<exists>r v vs'. contains f ''rain'' = Inr True \<and> subscript f ''rain'' = Inr r \<and>
        get r ''3h'' (JNum (Fin 0)) = Inr v \<and> rain_values fs = Inr vs' \<and> vs = v # vs')"
  by (auto split: sum.splits bool.splits)

lemma verdict_skip: "contains f ''rain'' = Inr False \<Longrightarrow> verdict f = Some False"
  by (simp add: verdict_def)

lemma verdict_value:
  "contains f ''rain'' = Inr True \<Longrightarrow> subscript f ''rain'' = Inr r \<Longrightarrow>
   get r ''3h'' (JNum (Fin 0)) = Inr v \<Longrightarrow> ge_1 v = Inr b \<Longrightarrow> verdict f = Some b"
  by (simp add: verdict_def)

lemma classify_sound:
  "rain_values fs = Inr vs \<Longrightarrow> at_least_one vs = Inr bs \<Longrightarrow>
     (\<forall>f \<in> set fs. verdict f \<noteq> None) \<and> (True \<in> set bs \<longleftrightarrow> (\<exists>f \<in> set fs. verdict f = Some True))"
proof (induction fs arbitrary: vs bs)
  case Nil
  then show ?case by auto
next
  case (Cons f fs)
  from Cons.prems(1) consider
      (skip) "contains f ''rain'' = Inr False" "rain_values fs = Inr vs"
    | (val) r v vs' where "contains f ''rain'' = Inr True" "subscript f ''rain'' = Inr r"
        "get r ''3h'' (JNum (Fin 0)) = Inr v" "rain_values fs = Inr vs'" "vs = v # vs'"
    unfolding rain_values_Cons_Inr by blast
  then show ?case
  proof cases
    case skip
    from Cons.IH [OF skip(2) Cons.prems(2)] verdict_skip [OF skip(1)]
    show ?thesis by auto
  next
    case val
    from Cons.prems(2) val(5) have "at_least_one (v # vs') = Inr bs"
      by simp
    then obtain b bs' where
      b: "ge_1 v = Inr b" "at_least_one vs' = Inr bs'" "bs = b # bs'"
      unfolding at_least_one_Cons_Inr by blast
    from Cons.IH [OF val(4) b(2)] verdict_value [OF val(1-3) b(1)] b(3)
    show ?thesis by (cases b) auto
  qed
qed

lemma classify_complete:
  "\<forall>f \<in> set fs. verdict f \<noteq> None \<Longrightarrow> \<exists>vs bs. rain_values fs = Inr vs \<and> at_least_one vs = Inr bs"
proof (induction fs)
  case Nil
  show ?case by simp
next
  case (Cons f fs)
  then obtain vs bs where IH: "rain_values fs = Inr vs" "at_least_one vs = Inr bs"
    by auto
  from Cons.prems have "verdict f \<noteq> None" by simp
  then consider
      (skip) "contains f ''rain'' = Inr False"
    | (val) r v b where "contains f ''rain'' = Inr True" "subscript f ''rain'' = Inr r"
        "get r ''3h'' (JNum (Fin 0)) = Inr v" "ge_1 v = Inr b"
    unfolding verdict_def by (auto split: sum.splits bool.splits)
  then show ?case
  proof cases
    case skip
    with IH show ?thesis by simp
  next
    case val
    with IH show ?thesis by simp
  qed
qed


lemma if_True_False: "(if c then True else False) = c"
  by simp

lemma entries_subscript: "entries data = Some es \<Longrightarrow> subscript data ''list'' = Inr (JArr es)"
  by (auto simp: entries_def split: json.splits option.splits)

lemma is_raining_entries:
  assumes "entries data = Some es"
  shows "is_raining_this_week data = Inr b \<longleftrightarrow>
           (\<forall>f \<in> set es. verdict f \<noteq> None) \<and> b = (\<exists>f \<in> set es. verdict f = Some True)"
proof
  assume r: "is_raining_this_week data = Inr b"
  then obtain vs bs where *: "rain_values es = Inr vs" "at_least_one vs = Inr bs"
    "b = (1 \<le> sum_bools bs)"
    by (auto simp: is_raining_this_week_def entries_subscript [OF assms] if_True_False
          split: sum.splits)
  from classify_sound [OF *(1,2)] *(3) show
    "(\<forall>f \<in> set es. verdict f \<noteq> None) \<and> b = (\<exists>f \<in> set es. verdict f = Some True)"
    by (simp add: sum_bools_ge_1)
next
  assume a: "(\<forall>f \<in> set es. verdict f \<noteq> None) \<and> b = (\<exists>f \<in> set es. verdict f = Some True)"
  then obtain vs bs where *: "rain_values es = Inr vs" "at_least_one vs = Inr bs"
    using classify_complete by blast
  from classify_sound [OF *] a have "b = (1 \<le> sum_bools bs)"
    by (simp add: sum_bools_ge_1)
  with * show "is_raining_this_week data = Inr b"
    by (simp add: is_raining_this_week_def entries_subscript [OF assms])
qed

lemma well_formed_verdict: "well_formed_entry e \<Longrightarrow> verdict e = Some (entry_rains e)"
  by (auto simp: well_formed_entry_def verdict_def entry_rains_def precipitation_def
        three_hour_def meets_threshold_def threshold_def
      split: json.splits option.splits number.splits)

lemma classifier_well_formed:
  assumes "entries data = Some es" and "list_all well_formed_entry es"
  shows "is_raining_this_week data = Inr (\<exists>e \<in> set es. entry_rains e)"
proof -
  from assms(2) have v: "\<forall>e \<in> set es. verdict e = Some (entry_rains e)"
    by (simp add: list_all_iff well_formed_verdict)
  then have "(\<forall>f \<in> set es. verdict f \<noteq> None) \<and>
      (\<exists>e \<in> set es. entry_rains e) = (\<exists>f \<in> set es. verdict f = Some True)"
    by auto
  then show ?thesis
    using is_raining_entries [OF assms(1), of "\<exists>e \<in> set es. entry_rains e"] by blast
qed

lemma entry_rains_has_three_hour:
  "well_formed_entry e \<Longrightarrow> entry_rains e \<Longrightarrow> has_three_hour e"
  by (auto simp: well_formed_entry_def entry_rains_def has_three_hour_def precipitation_def
        three_hour_def meets_threshold_def threshold_def
      split: json.splits option.splits number.splits)

subsection \<open>The classifier's contract\<close>

text \<open>
  Claim C1.  On every forecast response (a response with an entry list whose entries
  have the shape of the data model), \<open>is_raining_this_week\<close> returns \<^verbatim>\<open>True\<close> if and
  only if at least one entry carries a precipitation field whose 3-hour value, 0 when
  the sub-key is absent, is at least the threshold 1.0, and it returns \<^verbatim>\<open>False\<close>
  otherwise.
\<close>

theorem classifier_iff_some_entry_rains:
  assumes "entries data = Some es" and "list_all well_formed_entry es"
  shows "(is_raining_this_week data = Inr True \<longleftrightarrow> (\<exists>e \<in> set es. entry_rains e))
       \<and> (is_raining_this_week data = Inr False \<longleftrightarrow> \<not> (\<exists>e \<in> set es. entry_rains e))"
  using classifier_well_formed [OF assms] by simp

theorem classifier_iff_some_entry_rains_witness:
  "entries (JObj [(''cod'', JStr ''200''), (''list'', JArr [JObj [], JObj [(''rain'', JObj [])],
      JObj [(''rain'', JObj [(''3h'', JNum (Fin 2))])]])])
     = Some [JObj [], JObj [(''rain'', JObj [])], JObj [(''rain'', JObj [(''3h'', JNum (Fin 2))])]]
   \<and> list_all well_formed_entry
        [JObj [], JObj [(''rain'', JObj [])], JObj [(''rain'', JObj [(''3h'', JNum (Fin 2))])]]
   \<and> is_raining_this_week (JObj [(''cod'', JStr ''200''), (''list'', JArr [JObj [],
        JObj [(''rain'', JObj [])], JObj [(''rain'', JObj [(''3h'', JNum (Fin 2))])]])]) = Inr True"
proof -
  let ?es = "[JObj [], JObj [(''rain'', JObj [])], JObj [(''rain'', JObj [(''3h'', JNum (Fin 2))])]]"
  let ?d = "JObj [(''cod'', JStr ''200''), (''list'', JArr ?es)]"
  have e: "entries ?d = Some ?es"
    by (simp add: entries_def)
  have w: "list_all well_formed_entry ?es"
    by (simp add: well_formed_entry_def)
  have r: "\<exists>e \<in> set ?es. entry_rains e"
    by (simp add: entry_rains_def precipitation_def three_hour_def meets_threshold_def threshold_def)
  from classifier_iff_some_entry_rains [OF e w] r e w show ?thesis
    by blast
qed

text \<open>
  Claim C2 does not hold as stated.  The classifier is not total: a response without
  an entry list raises \<^verbatim>\<open>KeyError\<close>, and an entry whose precipitation field is not
  a mapping raises \<^verbatim>\<open>AttributeError\<close>.
\<close>

theorem classifier_raises_on_malformed:
  "is_raining_this_week (JObj []) = Inl (KeyError ''list'')
   \<and> is_raining_this_week (JObj [(''list'', JArr [JObj [(''rain'', JNum (Fin 5))]])]) = Inl AttributeError"
  by (simp add: is_raining_this_week_def)

text \<open>
  Claim C2, amended.  The classifier never raises on a response with an entry list
  whose entries are mappings, each with no precipitation field or with a precipitation
  mapping whose 3-hour value is absent or a number.  There an entry without a
  precipitation field or without the 3-hour sub-key contributes no rain: leaving those
  entries out does not change the result.
\<close>

theorem classifier_total_on_well_formed:
  assumes "entries data = Some es" and "list_all well_formed_entry es"
  shows "\<exists>b. is_raining_this_week data = Inr b
           \<and> is_raining_this_week (JObj [(''list'', JArr (filter has_three_hour es))]) = Inr b"
proof -
  let ?fs = "filter has_three_hour es"
  have e: "entries (JObj [(''list'', JArr ?fs)]) = Some ?fs"
    by (simp add: entries_def)
  from assms(2) have w: "list_all well_formed_entry ?fs"
    by (simp add: list_all_iff)
  from assms(2) have "(\<exists>e \<in> set ?fs. entry_rains e) = (\<exists>e \<in> set es. entry_rains e)"
    by (auto simp: list_all_iff entry_rains_has_three_hour)
  with classifier_well_formed [OF e w] classifier_well_formed [OF assms]
  show ?thesis by simp
qed

theorem classifier_total_on_well_formed_witness:
  "entries (JObj [(''list'', JArr [JObj [], JObj [(''rain'', JObj [])],
       JObj [(''rain'', JObj [(''3h'', JNum (Fin (1 / 2)))])]])])
     = Some [JObj [], JObj [(''rain'', JObj [])], JObj [(''rain'', JObj [(''3h'', JNum (Fin (1 / 2)))])]]
   \<and> list_all well_formed_entry
        [JObj [], JObj [(''rain'', JObj [])], JObj [(''rain'', JObj [(''3h'', JNum (Fin (1 / 2)))])]]
   \<and> is_raining_this_week (JObj [(''list'', JArr [JObj [], JObj [(''rain'', JObj [])],
       JObj [(''rain'', JObj [(''3h'', JNum (Fin (1 / 2)))])]])]) = Inr False
   \<and> is_raining_this_week (JObj [(''list'', JArr
       [JObj [(''rain'', JObj [(''3h'', JNum (Fin (1 / 2)))])]])]) = Inr False"
proof -
  let ?es = "[JObj [], JObj [(''rain'', JObj [])], JObj [(''rain'', JObj [(''3h'', JNum (Fin (1 / 2)))])]]"
  let ?d = "JObj [(''list'', JArr ?es)]"
  have e: "entries ?d = Some ?es"
    by (simp add: entries_def)
  have w: "list_all well_formed_entry ?es"
    by (simp add: well_formed_entry_def)
  have f: "filter has_three_hour ?es = [JObj [(''rain'', JObj [(''3h'', JNum (Fin (1 / 2)))])]]"
    by (simp add: has_three_hour_def precipitation_def)
  have r: "is_raining_this_week ?d = Inr False"
    by (simp add: is_raining_this_week_def sum_bools_def)
  from classifier_total_on_well_formed [OF e w] f r e w show ?thesis
    by auto
qed

text \<open>
  Claim C5.  The classifier is a function of the response alone, and the order of the
  entries does not matter: two responses whose entry lists are permutations of each
  other make it return the same boolean (and it raises on one exactly when it raises
  on the other).
\<close>

theorem classifier_order_independent:
  assumes "entries data = Some es" and "entries data' = Some es'" and "mset es = mset es'"
  shows "is_raining_this_week data = Inr b \<longleftrightarrow> is_raining_this_week data' = Inr b"
proof -
  from assms(3) have "set es = set es'"
    by (rule mset_eq_setD)
  then show ?thesis
    by (simp add: is_raining_entries [OF assms(1)] is_raining_entries [OF assms(2)])
qed

theorem classifier_order_independent_witness:
  "entries (JObj [(''list'', JArr [JObj [], JObj [(''rain'', JObj [(''3h'', JNum (Fin 3))])]])])
     = Some [JObj [], JObj [(''rain'', JObj [(''3h'', JNum (Fin 3))])]]
   \<and> entries (JObj [(''list'', JArr [JObj [(''rain'', JObj [(''3h'', JNum (Fin 3))])], JObj []])])
     = Some [JObj [(''rain'', JObj [(''3h'', JNum (Fin 3))])], JObj []]
   \<and> mset [JObj [], JObj [(''rain'', JObj [(''3h'', JNum (Fin 3))])]]
     = mset [JObj [(''rain'', JObj [(''3h'', JNum (Fin 3))])], JObj []]
   \<and> is_raining_this_week
        (JObj [(''list'', JArr [JObj [], JObj [(''rain'', JObj [(''3h'', JNum (Fin 3))])]])]) = Inr True
   \<and> is_raining_this_week
        (JObj [(''list'', JArr [JObj [(''rain'', JObj [(''3h'', JNum (Fin 3))])], JObj []])]) = Inr True"
proof -
  let ?a = "JObj []"
  let ?b = "JObj [(''rain'', JObj [(''3h'', JNum (Fin 3))])]"
  have e: "entries (JObj [(''list'', JArr [?a, ?b])]) = Some [?a, ?b]"
    by (simp add: entries_def)
  have e': "entries (JObj [(''list'', JArr [?b, ?a])]) = Some [?b, ?a]"
    by (simp add: entries_def)
  have m: "mset [?a, ?b] = mset [?b, ?a]"
    by simp
  have r: "is_raining_this_week (JObj [(''list'', JArr [?a, ?b])]) = Inr True"
    by (simp add: is_raining_this_week_def sum_bools_def)
  from classifier_order_independent [OF e e' m, of True] r e e' m show ?thesis
    by simp
qed

section \<open>Properties of the flow\<close>

subsection \<open>The fetch stage and its retries\<close>

lemma pull_forecast_events:
  "fst (pull_forecast c key reply) = [Link (forecast_url c key), Get (forecast_url c key)]"
  by (simp add: pull_forecast_def Let_def)

lemma logged_pull_forecast:
  "logged name (pull_forecast c key reply) =
     ([Link (forecast_url c key), Get (forecast_url c key)]
        @ (case snd (pull_forecast c key reply) of Inl e \<Rightarrow> [Log name e] | Inr v \<Rightarrow> []),
      snd (pull_forecast c key reply))"
  by (cases "snd (pull_forecast c key reply)")
     (simp_all add: logged_def pull_forecast_def Let_def)

lemma logged_attempt:
  "logged name (pull_forecast (city given) key (replies k)) =
     ([Link (forecast_url (city given) key), Get (forecast_url (city given) key)]
        @ (case attempt given key replies k of Inl e \<Rightarrow> [Log name e] | Inr v \<Rightarrow> []),
      attempt given key replies k)"
  by (simp add: logged_pull_forecast attempt_def)

lemma error_status_raises:
  "400 \<le> s \<Longrightarrow> s < 600 \<Longrightarrow>
     snd (pull_forecast c key (Response s body)) = Inl (HTTPError s (forecast_url c key))"
  by (simp add: pull_forecast_def raise_for_status_def Let_def)

lemma fetch_trace:
  "\<exists>es. length es \<le> n \<and>
     fst (run_with_retries n d (\<lambda>k. logged name (pull_forecast c key (replies k))) k) =
       concat (map (\<lambda>e. [Link (forecast_url c key), Get (forecast_url c key), Log name e, Wait d]) es)
         @ [Link (forecast_url c key), Get (forecast_url c key)]
         @ (case snd (run_with_retries n d (\<lambda>k. logged name (pull_forecast c key (replies k))) k) of
              Inl e \<Rightarrow> [Log name e] | Inr v \<Rightarrow> [])"
proof (induction n arbitrary: k)
  case 0
  have "length ([] :: py_error list) \<le> 0" by simp
  moreover have "fst (run_with_retries 0 d (\<lambda>k. logged name (pull_forecast c key (replies k))) k) =
       concat (map (\<lambda>e. [Link (forecast_url c key), Get (forecast_url c key), Log name e, Wait d]) [])
         @ [Link (forecast_url c key), Get (forecast_url c key)]
         @ (case snd (run_with_retries 0 d (\<lambda>k. logged name (pull_forecast c key (replies k))) k) of
              Inl e \<Rightarrow> [Log name e] | Inr v \<Rightarrow> [])"
    by (simp add: logged_pull_forecast)
  ultimately show ?case by blast
next
  case (Suc n)
  let ?u = "forecast_url c key"
  let ?A = "\<lambda>k. logged name (pull_forecast c key (replies k))"
  show ?case
  proof (cases "snd (pull_forecast c key (replies k))")
    case (Inr v)
    then have "fst (run_with_retries (Suc n) d ?A k) =
        concat (map (\<lambda>e. [Link ?u, Get ?u, Log name e, Wait d]) []) @ [Link ?u, Get ?u]
          @ (case snd (run_with_retries (Suc n) d ?A k) of Inl e \<Rightarrow> [Log name e] | Inr v \<Rightarrow> [])"
      by (simp add: logged_pull_forecast)
    moreover have "length ([] :: py_error list) \<le> Suc n" by simp
    ultimately show ?thesis by blast
  next
    case (Inl e)
    from Suc [of "Suc k"] obtain es where es: "length es \<le> n"
      "fst (run_with_retries n d ?A (Suc k)) =
         concat (map (\<lambda>e. [Link ?u, Get ?u, Log name e, Wait d]) es) @ [Link ?u, Get ?u]
           @ (case snd (run_with_retries n d ?A (Suc k)) of Inl e \<Rightarrow> [Log name e] | Inr v \<Rightarrow> [])"
      by blast
    obtain evs' r' where rec: "run_with_retries n d ?A (Suc k) = (evs', r')"
      by (cases "run_with_retries n d ?A (Suc k)")
    with Inl es(2)
    have "fst (run_with_retries (Suc n) d ?A k) =
        concat (map (\<lambda>e. [Link ?u, Get ?u, Log name e, Wait d]) (e # es)) @ [Link ?u, Get ?u]
          @ (case snd (run_with_retries (Suc n) d ?A k) of Inl e \<Rightarrow> [Log name e] | Inr v \<Rightarrow> [])"
      by (simp add: logged_pull_forecast)
    moreover from es(1) have "length (e # es) \<le> Suc n" by simp
    ultimately show ?thesis by blast
  qed
qed

lemma pull_forecast_key:
  "no_url_result (snd (pull_forecast c key reply)) =
   no_url_result (snd (pull_forecast c key' reply))"
  by (simp add: pull_forecast_def raise_for_status_def Let_def
        split: http_outcome.splits option.splits)

lemma fetch_result_key:
  "no_url_result (snd (run_with_retries n d (\<lambda>k. logged name (pull_forecast c key (replies k))) k)) =
   no_url_result (snd (run_with_retries n d (\<lambda>k. logged name (pull_forecast c key' (replies k))) k))"
proof (induction n arbitrary: k)
  case 0
  show ?case using pull_forecast_key [of c key "replies k" key']
    by (simp add: logged_pull_forecast)
next
  case (Suc n)
  from pull_forecast_key [of c key "replies k" key'] Suc [of "Suc k"] show ?case
    by (cases "snd (pull_forecast c key (replies k))"; cases "snd (pull_forecast c key' (replies k))")
       (auto simp: logged_pull_forecast split: prod.splits)
qed

lemma fetch_events_key:
  "map no_urls (fst (run_with_retries n d (\<lambda>k. logged ''pull_forecast'' (pull_forecast c key (replies k))) k)) =
   map no_urls (fst (run_with_retries n d (\<lambda>k. logged ''pull_forecast'' (pull_forecast c key' (replies k))) k))"
proof (induction n arbitrary: k)
  case 0
  show ?case using pull_forecast_key [of c key "replies k" key']
    by (cases "snd (pull_forecast c key (replies k))"; cases "snd (pull_forecast c key' (replies k))")
       (simp_all add: logged_pull_forecast)
next
  case (Suc n)
  from pull_forecast_key [of c key "replies k" key'] Suc [of "Suc k"] show ?case
    by (cases "snd (pull_forecast c key (replies k))"; cases "snd (pull_forecast c key' (replies k))")
       (auto simp: logged_pull_forecast split: prod.splits)
qed

subsection \<open>The run as a whole\<close>

lemma flow_unfold:
  "flow given key replies secrets webhook =
     (let fr = run_with_retries max_retries retry_delay
                 (\<lambda>k. logged ''pull_forecast'' (pull_forecast (city given) key (replies k))) 0;
          cl = run_task ''is_raining_this_week'' (finished (snd fr)) is_raining_this_week;
          rn = case_block (snd cl) True rain_notification secrets webhook;
          dn = case_block (snd cl) False dry_notification secrets webhook
      in \<lparr>trace = fst fr @ fst cl @ fst rn @ fst dn,
          forecast_state = finished (snd fr),
          rain_state = snd cl,
          rain_notification_state = snd rn,
          dry_notification_state = snd dn\<rparr>)"
  by (simp add: flow_def Let_def split: prod.splits)

lemma run_task_snd:
  "snd (run_task name upstream body) =
     (case upstream of Success v \<Rightarrow> finished (body v) | _ \<Rightarrow> TriggerFailed)"
  by (simp add: run_task_def logged_def split: state.splits sum.splits)

lemma run_task_fst:
  "fst (run_task name upstream body) =
     (case upstream of
        Success v \<Rightarrow> (case body v of Inl e \<Rightarrow> [Log name e] | Inr r \<Rightarrow> [])
      | _ \<Rightarrow> [])"
  by (simp add: run_task_def logged_def split: state.splits sum.splits)

lemma case_block_snd:
  "snd (case_block upstream v t secrets webhook) =
     (case upstream of
        Success b \<Rightarrow> (if b = v then finished (snd (slack_task_run t secrets webhook)) else Skipped)
      | _ \<Rightarrow> TriggerFailed)"
  by (simp add: case_block_def logged_def split: state.splits sum.splits prod.splits)

lemma case_block_slack:
  "filter is_slack (fst (case_block upstream v t secrets webhook)) =
     (case upstream of
        Success b \<Rightarrow> (if b = v then fst (slack_task_run t secrets webhook) else [])
      | _ \<Rightarrow> [])"
  by (cases "slack_task_run t secrets webhook")
     (auto simp: case_block_def logged_def slack_task_run_def
        split: state.splits sum.splits option.splits)

lemma case_block_effects:
  "filter (\<lambda>ev. \<not> is_log ev) (fst (case_block upstream v t secrets webhook)) =
     filter is_slack (fst (case_block upstream v t secrets webhook))"
  by (cases "slack_task_run t secrets webhook")
     (auto simp: case_block_def logged_def slack_task_run_def
        split: state.splits sum.splits option.splits)

lemma fetch_no_slack:
  "filter is_slack (fst (run_with_retries n d (\<lambda>k. logged name (pull_forecast c key (replies k))) k)) = []"
proof -
  from fetch_trace [of n d name c key replies k] obtain es where
    "fst (run_with_retries n d (\<lambda>k. logged name (pull_forecast c key (replies k))) k) =
       concat (map (\<lambda>e. [Link (forecast_url c key), Get (forecast_url c key), Log name e, Wait d]) es)
         @ [Link (forecast_url c key), Get (forecast_url c key)]
         @ (case snd (run_with_retries n d (\<lambda>k. logged name (pull_forecast c key (replies k))) k) of
              Inl e \<Rightarrow> [Log name e] | Inr v \<Rightarrow> [])"
    by blast
  then show ?thesis
    by (simp add: filter_concat comp_def split: sum.splits)
qed

lemma states_flow:
  "forecast_state (flow given key replies secrets webhook) =
     finished (snd (run_with_retries max_retries retry_delay
            (\<lambda>k. logged ''pull_forecast'' (pull_forecast (city given) key (replies k))) 0))"
  "rain_state (flow given key replies secrets webhook) =
     (case forecast_state (flow given key replies secrets webhook) of
        Success data \<Rightarrow> finished (is_raining_this_week data) | _ \<Rightarrow> TriggerFailed)"
  "rain_notification_state (flow given key replies secrets webhook) =
     (case rain_state (flow given key replies secrets webhook) of
        Success b \<Rightarrow> (if b then finished (snd (slack_task_run rain_notification secrets webhook))
                      else Skipped)
      | _ \<Rightarrow> TriggerFailed)"
  "dry_notification_state (flow given key replies secrets webhook) =
     (case rain_state (flow given key replies secrets webhook) of
        Success b \<Rightarrow> (if b then Skipped
                      else finished (snd (slack_task_run dry_notification secrets webhook)))
      | _ \<Rightarrow> TriggerFailed)"
  by (simp_all add: flow_unfold Let_def run_task_snd case_block_snd split: state.splits)

lemma run_task_quiet:
  "filter is_slack (fst (run_task name upstream body)) = []"
  "filter (\<lambda>ev. \<not> is_log ev) (fst (run_task name upstream body)) = []"
  "concat (map (\<lambda>ev. case ev of Get u \<Rightarrow> [u] | _ \<Rightarrow> []) (fst (run_task name upstream body))) = []"
  by (cases upstream; auto simp: run_task_fst split: sum.splits)+

lemma notifications_flow:
  "notifications (flow given key replies secrets webhook) =
     (case rain_state (flow given key replies secrets webhook) of
        Success b \<Rightarrow> fst (slack_task_run (if b then rain_notification else dry_notification)
                           secrets webhook)
      | _ \<Rightarrow> [])"
  by (simp add: notifications_def flow_unfold Let_def fetch_no_slack run_task_quiet
        case_block_slack split: state.splits)

lemma effects_flow:
  "effects (flow given key replies secrets webhook) =
     filter (\<lambda>ev. \<not> is_log ev)
       (fst (run_with_retries max_retries retry_delay
            (\<lambda>k. logged ''pull_forecast'' (pull_forecast (city given) key (replies k))) 0))
       @ notifications (flow given key replies secrets webhook)"
  by (simp add: effects_def notifications_def flow_unfold Let_def fetch_no_slack run_task_quiet
        case_block_effects)

lemma case_block_quiet:
  "concat (map (\<lambda>ev. case ev of Get u \<Rightarrow> [u] | _ \<Rightarrow> []) (fst (case_block upstream v t secrets webhook))) = []"
  "filter (\<lambda>ev. is_link ev \<or> is_get ev) (fst (case_block upstream v t secrets webhook)) = []"
  by (cases upstream; auto simp: case_block_def logged_def slack_task_run_def
        split: sum.splits option.splits http_outcome.splits)+

lemma run_task_no_urls:
  "filter (\<lambda>ev. is_link ev \<or> is_get ev) (fst (run_task name upstream body)) = []"
  by (cases upstream; auto simp: run_task_fst split: sum.splits)

lemma fetch_shape:
  "\<exists>es. length es \<le> 2 \<and>
     fst (run_with_retries max_retries retry_delay
            (\<lambda>k. logged ''pull_forecast'' (pull_forecast (city given) key (replies k))) 0) =
       concat (map (\<lambda>e. [Link (forecast_url (city given) key), Get (forecast_url (city given) key),
                          Log ''pull_forecast'' e, Wait 5]) es)
         @ [Link (forecast_url (city given) key), Get (forecast_url (city given) key)]
         @ (case forecast_state (flow given key replies secrets webhook) of
              Failed e \<Rightarrow> [Log ''pull_forecast'' e] | _ \<Rightarrow> [])"
proof -
  from fetch_trace [of max_retries retry_delay "''pull_forecast''" "city given" key replies 0]
  show ?thesis
    by (simp add: states_flow(1) finished_def max_retries_def retry_delay_def split: sum.splits)
qed

lemma requests_flow:
  "\<exists>j\<le>2. requests (flow given key replies secrets webhook)
            = replicate (Suc j) (forecast_url (city given) key)
     \<and> filter (\<lambda>ev. is_link ev \<or> is_get ev) (trace (flow given key replies secrets webhook))
            = concat (replicate (Suc j) [Link (forecast_url (city given) key),
                                         Get (forecast_url (city given) key)])"
proof -
  let ?u = "forecast_url (city given) key"
  let ?run = "flow given key replies secrets webhook"
  let ?fr = "run_with_retries max_retries retry_delay
      (\<lambda>k. logged ''pull_forecast'' (pull_forecast (city given) key (replies k))) 0"
  from fetch_shape [of given key replies secrets webhook] obtain es where
    es: "length es \<le> 2"
    "fst ?fr = concat (map (\<lambda>e. [Link ?u, Get ?u, Log ''pull_forecast'' e, Wait 5]) es)
       @ [Link ?u, Get ?u]
       @ (case forecast_state ?run of Failed e \<Rightarrow> [Log ''pull_forecast'' e] | _ \<Rightarrow> [])"
    by blast
  have g: "concat (map (\<lambda>ev. case ev of Get u \<Rightarrow> [u] | _ \<Rightarrow> [])
             (concat (map (\<lambda>e. [Link ?u, Get ?u, Log ''pull_forecast'' e, Wait 5]) es)))
           = replicate (length es) ?u"
    by (induction es) simp_all
  have l: "filter (\<lambda>ev. is_link ev \<or> is_get ev)
             (concat (map (\<lambda>e. [Link ?u, Get ?u, Log ''pull_forecast'' e, Wait 5]) es))
           = concat (replicate (length es) [Link ?u, Get ?u])"
    by (induction es) simp_all
  have t: "concat (map (\<lambda>ev. case ev of Get u \<Rightarrow> [u] | _ \<Rightarrow> [])
             (case forecast_state ?run of Failed e \<Rightarrow> [Log ''pull_forecast'' e] | _ \<Rightarrow> [])) = []"
    "filter (\<lambda>ev. is_link ev \<or> is_get ev)
             (case forecast_state ?run of Failed e \<Rightarrow> [Log ''pull_forecast'' e] | _ \<Rightarrow> []) = []"
    by (cases "forecast_state ?run"; simp)+
  have "requests ?run = replicate (length es) ?u @ [?u]"
    by (simp add: requests_def flow_unfold [of given key replies secrets webhook] Let_def
          run_task_quiet case_block_quiet)
       (simp add: es(2) g t)
  then have 1: "requests ?run = replicate (Suc (length es)) ?u"
    by (simp add: replicate_append_same)
  have "filter (\<lambda>ev. is_link ev \<or> is_get ev) (trace ?run)
          = concat (replicate (length es) [Link ?u, Get ?u]) @ [Link ?u, Get ?u]"
    by (simp add: flow_unfold [of given key replies secrets webhook] Let_def
          run_task_no_urls case_block_quiet)
       (simp add: es(2) l t)
  also have "\<dots> = concat (replicate (Suc (length es)) [Link ?u, Get ?u])"
    by (induction "length es") (simp_all add: replicate_append_same [symmetric])
  finally show ?thesis
    using 1 es(1) by blast
qed

lemma fired_finished: "fired (finished r)"
  by (cases r) (simp_all add: finished_def)

lemma finished_not_skipped: "finished r \<noteq> Skipped"
  by (cases r) (simp_all add: finished_def)

lemma slack_task_run_fst:
  "fst (slack_task_run t secrets webhook) =
     (case secrets (webhook_secret t) of None \<Rightarrow> [] | Some url \<Rightarrow> [Slack url (message t)])"
  by (simp add: slack_task_run_def split: option.splits)

lemma failed_run:
  "forecast_state (flow given key replies secrets webhook) = Failed e \<Longrightarrow>
     rain_state (flow given key replies secrets webhook) = TriggerFailed
     \<and> rain_notification_state (flow given key replies secrets webhook) = TriggerFailed
     \<and> dry_notification_state (flow given key replies secrets webhook) = TriggerFailed
     \<and> notifications (flow given key replies secrets webhook) = []"
  by (simp add: states_flow(2,3,4) notifications_flow)

lemma trace_failed:
  "forecast_state (flow given key replies secrets webhook) = Failed e \<Longrightarrow>
     trace (flow given key replies secrets webhook) =
       fst (run_with_retries max_retries retry_delay
            (\<lambda>k. logged ''pull_forecast'' (pull_forecast (city given) key (replies k))) 0)"
proof -
  assume f: "forecast_state (flow given key replies secrets webhook) = Failed e"
  then have "finished (snd (run_with_retries max_retries retry_delay
      (\<lambda>k. logged ''pull_forecast'' (pull_forecast (city given) key (replies k))) 0)) = Failed e"
    by (simp add: states_flow(1))
  then show ?thesis
    by (simp add: flow_unfold Let_def run_task_def case_block_def)
qed

lemma trace_succeeded:
  "forecast_state (flow given key replies secrets webhook) = Success data \<Longrightarrow>
     take (length (fst (run_with_retries max_retries retry_delay
            (\<lambda>k. logged ''pull_forecast'' (pull_forecast (city given) key (replies k))) 0)))
       (trace (flow given key replies secrets webhook)) =
       fst (run_with_retries max_retries retry_delay
            (\<lambda>k. logged ''pull_forecast'' (pull_forecast (city given) key (replies k))) 0)"
  by (simp add: flow_unfold Let_def)

lemma result_key_state:
  assumes "no_url_result r = no_url_result r'"
  shows "no_url_state (finished r) = no_url_state (finished r')"
    and "run_task name (finished r) body = run_task name (finished r') body"
  using assms by (cases r; cases r'; simp add: finished_def run_task_def)+

lemma no_urls_downstream:
  "map no_urls (fst (run_task ''is_raining_this_week'' upstream body)) =
     fst (run_task ''is_raining_this_week'' upstream body)"
  "map no_urls (fst (case_block st v t secrets webhook)) = fst (case_block st v t secrets webhook)"
  by (cases upstream; auto simp: run_task_fst split: sum.splits)
     (cases st; auto simp: case_block_def logged_def slack_task_run_def
        split: sum.splits option.splits)

lemma failure_logged:
  "forecast_state (flow given key replies secrets webhook) = Failed e \<Longrightarrow>
     Log ''pull_forecast'' e \<in> set (trace (flow given key replies secrets webhook))"
proof -
  assume f: "forecast_state (flow given key replies secrets webhook) = Failed e"
  from fetch_shape [of given key replies secrets webhook] f trace_failed [OF f]
  show ?thesis by auto
qed

lemmas run_simps = flow_def max_retries_def retry_delay_def pull_forecast_def raise_for_status_def
  scripted_def secret_store_def city_def finished_def run_task_def logged_def slack_task_run_def
  is_raining_this_week_def case_block_def rain_notification_def dry_notification_def
  notifications_def requests_def effects_def sum_bools_def Let_def numeral_2_eq_2

subsection \<open>The notifiers\<close>

text \<open>
  Claim C3.  In every run in which the classifier produced a boolean, exactly one of
  the two notifiers fires: the rain notifier when the decision is \<^verbatim>\<open>True\<close>, the dry
  notifier when it is \<^verbatim>\<open>False\<close>; the other one is skipped.  The notifier that fires
  ends as its post to the webhook ends, in success or in failure, and the message it
  posts is its own.
\<close>

theorem exactly_one_notifier_fires:
  assumes "rain_state (flow given key replies secrets webhook) = Success b"
  shows "fired (rain_notification_state (flow given key replies secrets webhook)) = b
       \<and> fired (dry_notification_state (flow given key replies secrets webhook)) = (\<not> b)
       \<and> (rain_notification_state (flow given key replies secrets webhook) = Skipped) = (\<not> b)
       \<and> (dry_notification_state (flow given key replies secrets webhook) = Skipped) = b
       \<and> rain_notification_state (flow given key replies secrets webhook) =
           (if b then finished (snd (slack_task_run rain_notification secrets webhook)) else Skipped)
       \<and> dry_notification_state (flow given key replies secrets webhook) =
           (if b then Skipped else finished (snd (slack_task_run dry_notification secrets webhook)))
       \<and> notifications (flow given key replies secrets webhook) =
           (case secrets ''SLACK_WEBHOOK_URL_MHQ'' of
              None \<Rightarrow> []
            | Some url \<Rightarrow>
                [Slack url (if b then ''RAIN in the forecast for this week!''
                            else ''NO RAIN in the forecast for this week!'')])"
  by (simp add: states_flow(3,4) notifications_flow assms fired_finished finished_not_skipped
        slack_task_run_fst rain_notification_def dry_notification_def split: option.splits)

theorem exactly_one_notifier_fires_witness:
  "rain_state (flow None ''k'' (scripted [Response 200 (Some (JObj [(''list'',
       JArr [JObj [(''rain'', JObj [(''3h'', JNum (Fin 2))])]])]))])
       (secret_store [(''SLACK_WEBHOOK_URL_MHQ'', ''https://hooks.slack.com/services/T/B/X'')])
       (Response 500 None)) = Success True
   \<and> notifications (flow None ''k'' (scripted [Response 200 (Some (JObj [(''list'',
       JArr [JObj [(''rain'', JObj [(''3h'', JNum (Fin 2))])]])]))])
       (secret_store [(''SLACK_WEBHOOK_URL_MHQ'', ''https://hooks.slack.com/services/T/B/X'')])
       (Response 500 None))
       = [Slack ''https://hooks.slack.com/services/T/B/X'' ''RAIN in the forecast for this week!'']
   \<and> rain_notification_state (flow None ''k'' (scripted [Response 200 (Some (JObj [(''list'',
       JArr [JObj [(''rain'', JObj [(''3h'', JNum (Fin 2))])]])]))])
       (secret_store [(''SLACK_WEBHOOK_URL_MHQ'', ''https://hooks.slack.com/services/T/B/X'')])
       (Response 500 None))
       = Failed (HTTPError 500 ''https://hooks.slack.com/services/T/B/X'')
   \<and> dry_notification_state (flow None ''k'' (scripted [Response 200 (Some (JObj [(''list'',
       JArr [JObj [(''rain'', JObj [(''3h'', JNum (Fin 2))])]])]))])
       (secret_store [(''SLACK_WEBHOOK_URL_MHQ'', ''https://hooks.slack.com/services/T/B/X'')])
       (Response 500 None)) = Skipped"
proof -
  let ?run = "flow None ''k'' (scripted [Response 200 (Some (JObj [(''list'',
       JArr [JObj [(''rain'', JObj [(''3h'', JNum (Fin 2))])]])]))])
       (secret_store [(''SLACK_WEBHOOK_URL_MHQ'', ''https://hooks.slack.com/services/T/B/X'')])
       (Response 500 None)"
  have r: "rain_state ?run = Success True"
    by (simp add: run_simps)
  from exactly_one_notifier_fires [OF r] r show ?thesis
    by (simp add: secret_store_def slack_task_run_def rain_notification_def raise_for_status_def
          finished_def)
qed

text \<open>
  Claim C7.  When the forecast list is \<^verbatim>\<open>[{}, {"rain": {"3h": 0.5}}]\<close> the classifier
  returns \<^verbatim>\<open>False\<close>; in a run whose fetch stage returned such a forecast the dry
  notifier fires and the rain notifier does not.
\<close>

theorem no_rain_scenario:
  assumes "forecast_state (flow given key replies secrets webhook) =
             Success (JObj ((''list'', JArr [JObj [], JObj [(''rain'', JObj [(''3h'', JNum (Fin (1 / 2)))])]]) # other))"
  shows "is_raining_this_week
           (JObj ((''list'', JArr [JObj [], JObj [(''rain'', JObj [(''3h'', JNum (Fin (1 / 2)))])]]) # other))
           = Inr False
       \<and> rain_state (flow given key replies secrets webhook) = Success False
       \<and> fired (dry_notification_state (flow given key replies secrets webhook))
       \<and> dry_notification_state (flow given key replies secrets webhook)
           = finished (snd (slack_task_run dry_notification secrets webhook))
       \<and> \<not> fired (rain_notification_state (flow given key replies secrets webhook))
       \<and> rain_notification_state (flow given key replies secrets webhook) = Skipped
       \<and> notifications (flow given key replies secrets webhook)
           = (case secrets ''SLACK_WEBHOOK_URL_MHQ'' of
                None \<Rightarrow> []
              | Some url \<Rightarrow> [Slack url ''NO RAIN in the forecast for this week!''])"
proof -
  let ?data = "JObj ((''list'', JArr [JObj [], JObj [(''rain'', JObj [(''3h'', JNum (Fin (1 / 2)))])]]) # other)"
  have c: "is_raining_this_week ?data = Inr False"
    by (simp add: is_raining_this_week_def sum_bools_def)
  with assms have r: "rain_state (flow given key replies secrets webhook) = Success False"
    by (simp add: states_flow(2) finished_def)
  from c r show ?thesis
    by (simp add: states_flow(3,4) notifications_flow fired_finished slack_task_run_fst
          dry_notification_def split: option.splits)
qed

theorem no_rain_scenario_witness:
  "forecast_state (flow None ''k'' (scripted [Response 200 (Some (JObj [(''list'',
       JArr [JObj [], JObj [(''rain'', JObj [(''3h'', JNum (Fin (1 / 2)))])]])]))])
       (secret_store [(''SLACK_WEBHOOK_URL_MHQ'', ''https://hooks.slack.com/services/T/B/X'')])
       (Response 200 None))
     = Success (JObj [(''list'', JArr [JObj [], JObj [(''rain'', JObj [(''3h'', JNum (Fin (1 / 2)))])]])])
   \<and> trace (flow None ''k'' (scripted [Response 200 (Some (JObj [(''list'',
       JArr [JObj [], JObj [(''rain'', JObj [(''3h'', JNum (Fin (1 / 2)))])]])]))])
       (secret_store [(''SLACK_WEBHOOK_URL_MHQ'', ''https://hooks.slack.com/services/T/B/X'')])
       (Response 200 None))
     = [Link ''http://api.openweathermap.org/data/2.5/forecast?appid=k&q=San Francisco'',
        Get ''http://api.openweathermap.org/data/2.5/forecast?appid=k&q=San Francisco'',
        Slack ''https://hooks.slack.com/services/T/B/X'' ''NO RAIN in the forecast for this week!'']
   \<and> dry_notification_state (flow None ''k'' (scripted [Response 200 (Some (JObj [(''list'',
       JArr [JObj [], JObj [(''rain'', JObj [(''3h'', JNum (Fin (1 / 2)))])]])]))])
       (secret_store [(''SLACK_WEBHOOK_URL_MHQ'', ''https://hooks.slack.com/services/T/B/X'')])
       (Response 200 None)) = Success ()
   \<and> rain_notification_state (flow None ''k'' (scripted [Response 200 (Some (JObj [(''list'',
       JArr [JObj [], JObj [(''rain'', JObj [(''3h'', JNum (Fin (1 / 2)))])]])]))])
       (secret_store [(''SLACK_WEBHOOK_URL_MHQ'', ''https://hooks.slack.com/services/T/B/X'')])
       (Response 200 None)) = Skipped"
proof -
  let ?data = "JObj [(''list'', JArr [JObj [], JObj [(''rain'', JObj [(''3h'', JNum (Fin (1 / 2)))])]])]"
  let ?run = "flow None ''k'' (scripted [Response 200 (Some ?data)])
       (secret_store [(''SLACK_WEBHOOK_URL_MHQ'', ''https://hooks.slack.com/services/T/B/X'')])
       (Response 200 None)"
  have f: "forecast_state ?run = Success ?data"
    by (simp add: run_simps)
  have t: "trace ?run = [Link (forecast_url ''San Francisco'' ''k''),
      Get (forecast_url ''San Francisco'' ''k'')] @ notifications ?run"
    by (simp add: run_simps)
  from no_rain_scenario [OF f] f t show ?thesis
    by (simp add: forecast_url_def base_url_def secret_store_def slack_task_run_def
          dry_notification_def raise_for_status_def finished_def)
qed

subsection \<open>Failure and retry of the fetch stage\<close>

text \<open>
  Claim C4 does not hold as stated.  Not every status other than success fails the
  stage: \<^verbatim>\<open>raise_for_status\<close> lets the status 300 through, and the run goes on with
  the body of that response.
\<close>

theorem status_300_is_not_fatal:
  "snd (pull_forecast ''San Francisco'' ''k'' (Response 300 (Some (JObj [(''list'', JArr [])]))))
     = Inr (JObj [(''list'', JArr [])])
   \<and> forecast_state (flow None ''k'' (scripted [Response 300 (Some (JObj [(''list'', JArr [])]))])
        (secret_store [(''SLACK_WEBHOOK_URL_MHQ'', ''https://hooks.slack.com/services/T/B/X'')])
        (Response 200 None))
     = Success (JObj [(''list'', JArr [])])
   \<and> trace (flow None ''k'' (scripted [Response 300 (Some (JObj [(''list'', JArr [])]))])
        (secret_store [(''SLACK_WEBHOOK_URL_MHQ'', ''https://hooks.slack.com/services/T/B/X'')])
        (Response 200 None))
     = [Link ''http://api.openweathermap.org/data/2.5/forecast?appid=k&q=San Francisco'',
        Get ''http://api.openweathermap.org/data/2.5/forecast?appid=k&q=San Francisco'',
        Slack ''https://hooks.slack.com/services/T/B/X'' ''NO RAIN in the forecast for this week!'']"
  by (simp add: run_simps forecast_url_def base_url_def)

text \<open>
  Claim C4, amended.  A status from 400 to 599 makes the attempt fail with no result.
  An attempt that fails is followed by another one after a wait of 5 seconds, at most
  twice, so a run issues at most 3 requests: when all 3 attempts fail the failure of
  the last one is the state of the fetch stage, the classifier and both notifiers do
  not run; when an attempt succeeds (the first, the second or the third) the run goes
  on with the response of that attempt and makes no further request.
\<close>

theorem fetch_retry_policy:
  "(400 \<le> s \<and> s < 600 \<longrightarrow>
      snd (pull_forecast c key (Response s body)) = Inl (HTTPError s (forecast_url c key)))
   \<and> length (requests (flow given key replies secrets webhook)) \<le> 3
   \<and> (attempt given key replies 0 = Inl e0 \<and> attempt given key replies 1 = Inl e1
        \<and> attempt given key replies 2 = Inl e2 \<longrightarrow>
         trace (flow given key replies secrets webhook) =
           [Link (forecast_url (city given) key), Get (forecast_url (city given) key),
            Log ''pull_forecast'' e0, Wait 5,
            Link (forecast_url (city given) key), Get (forecast_url (city given) key),
            Log ''pull_forecast'' e1, Wait 5,
            Link (forecast_url (city given) key), Get (forecast_url (city given) key),
            Log ''pull_forecast'' e2]
         \<and> effects (flow given key replies secrets webhook) =
           [Link (forecast_url (city given) key), Get (forecast_url (city given) key), Wait 5,
            Link (forecast_url (city given) key), Get (forecast_url (city given) key), Wait 5,
            Link (forecast_url (city given) key), Get (forecast_url (city given) key)]
         \<and> forecast_state (flow given key replies secrets webhook) = Failed e2
         \<and> rain_state (flow given key replies secrets webhook) = TriggerFailed
         \<and> rain_notification_state (flow given key replies secrets webhook) = TriggerFailed
         \<and> dry_notification_state (flow given key replies secrets webhook) = TriggerFailed)
   \<and> (attempt given key replies 0 = Inl e0 \<and> attempt given key replies 1 = Inl e1
        \<and> attempt given key replies 2 = Inr data \<longrightarrow>
         effects (flow given key replies secrets webhook) =
           [Link (forecast_url (city given) key), Get (forecast_url (city given) key), Wait 5,
            Link (forecast_url (city given) key), Get (forecast_url (city given) key), Wait 5,
            Link (forecast_url (city given) key), Get (forecast_url (city given) key)]
             @ notifications (flow given key replies secrets webhook)
         \<and> take 10 (trace (flow given key replies secrets webhook)) =
           [Link (forecast_url (city given) key), Get (forecast_url (city given) key),
            Log ''pull_forecast'' e0, Wait 5,
            Link (forecast_url (city given) key), Get (forecast_url (city given) key),
            Log ''pull_forecast'' e1, Wait 5,
            Link (forecast_url (city given) key), Get (forecast_url (city given) key)]
         \<and> forecast_state (flow given key replies secrets webhook) = Success data
         \<and> rain_state (flow given key replies secrets webhook) = finished (is_raining_this_week data))
   \<and> (attempt given key replies 0 = Inl e0 \<and> attempt given key replies 1 = Inr data \<longrightarrow>
         effects (flow given key replies secrets webhook) =
           [Link (forecast_url (city given) key), Get (forecast_url (city given) key), Wait 5,
            Link (forecast_url (city given) key), Get (forecast_url (city given) key)]
             @ notifications (flow given key replies secrets webhook)
         \<and> forecast_state (flow given key replies secrets webhook) = Success data)
   \<and> (attempt given key replies 0 = Inr data \<longrightarrow>
         effects (flow given key replies secrets webhook) =
           [Link (forecast_url (city given) key), Get (forecast_url (city given) key)]
             @ notifications (flow given key replies secrets webhook)
         \<and> forecast_state (flow given key replies secrets webhook) = Success data)"
proof -
  let ?u = "forecast_url (city given) key"
  let ?run = "flow given key replies secrets webhook"
  let ?a = "attempt given key replies"
  let ?fr = "run_with_retries max_retries retry_delay
      (\<lambda>k. logged ''pull_forecast'' (pull_forecast (city given) key (replies k))) 0"
  note unf = max_retries_def retry_delay_def numeral_2_eq_2 logged_attempt
  have status: "400 \<le> s \<and> s < 600 \<longrightarrow>
      snd (pull_forecast c key (Response s body)) = Inl (HTTPError s (forecast_url c key))"
    by (simp add: error_status_raises)
  from requests_flow [of given key replies secrets webhook]
  have bound: "length (requests ?run) \<le> 3"
    by auto
  have all_fail: "trace ?run =
        [Link ?u, Get ?u, Log ''pull_forecast'' e0, Wait 5,
         Link ?u, Get ?u, Log ''pull_forecast'' e1, Wait 5,
         Link ?u, Get ?u, Log ''pull_forecast'' e2]
      \<and> effects ?run = [Link ?u, Get ?u, Wait 5, Link ?u, Get ?u, Wait 5, Link ?u, Get ?u]
      \<and> forecast_state ?run = Failed e2 \<and> rain_state ?run = TriggerFailed
      \<and> rain_notification_state ?run = TriggerFailed \<and> dry_notification_state ?run = TriggerFailed"
    if "?a 0 = Inl e0" "?a 1 = Inl e1" "?a 2 = Inl e2"
  proof -
    from that have fr: "?fr = ([Link ?u, Get ?u, Log ''pull_forecast'' e0, Wait 5,
         Link ?u, Get ?u, Log ''pull_forecast'' e1, Wait 5,
         Link ?u, Get ?u, Log ''pull_forecast'' e2], Inl e2)"
      by (simp add: unf)
    then have f: "forecast_state ?run = Failed e2"
      by (simp add: states_flow(1) finished_def)
    from trace_failed [OF f] fr have t: "trace ?run =
        [Link ?u, Get ?u, Log ''pull_forecast'' e0, Wait 5,
         Link ?u, Get ?u, Log ''pull_forecast'' e1, Wait 5,
         Link ?u, Get ?u, Log ''pull_forecast'' e2]"
      by simp
    then have "effects ?run = [Link ?u, Get ?u, Wait 5, Link ?u, Get ?u, Wait 5, Link ?u, Get ?u]"
      by (simp add: effects_def)
    with failed_run [OF f] f t show ?thesis by simp
  qed
  have third: "effects ?run =
        [Link ?u, Get ?u, Wait 5, Link ?u, Get ?u, Wait 5, Link ?u, Get ?u] @ notifications ?run
      \<and> take 10 (trace ?run) =
        [Link ?u, Get ?u, Log ''pull_forecast'' e0, Wait 5,
         Link ?u, Get ?u, Log ''pull_forecast'' e1, Wait 5, Link ?u, Get ?u]
      \<and> forecast_state ?run = Success data
      \<and> rain_state ?run = finished (is_raining_this_week data)"
    if "?a 0 = Inl e0" "?a 1 = Inl e1" "?a 2 = Inr data"
  proof -
    from that have fr: "?fr = ([Link ?u, Get ?u, Log ''pull_forecast'' e0, Wait 5,
         Link ?u, Get ?u, Log ''pull_forecast'' e1, Wait 5, Link ?u, Get ?u], Inr data)"
      by (simp add: unf)
    then have f: "forecast_state ?run = Success data"
      by (simp add: states_flow(1) finished_def)
    have "length (fst ?fr) = 10"
      by (simp add: fr)
    with trace_succeeded [OF f] have "take 10 (trace ?run) = fst ?fr"
      by simp
    with fr f show ?thesis
      by (simp add: effects_flow states_flow(2))
  qed
  have second: "effects ?run = [Link ?u, Get ?u, Wait 5, Link ?u, Get ?u] @ notifications ?run
      \<and> forecast_state ?run = Success data"
    if "?a 0 = Inl e0" "?a 1 = Inr data"
  proof -
    from that have fr: "?fr = ([Link ?u, Get ?u, Log ''pull_forecast'' e0, Wait 5,
         Link ?u, Get ?u], Inr data)"
      by (simp add: unf)
    then show ?thesis
      by (simp add: effects_flow states_flow(1) finished_def)
  qed
  have first: "effects ?run = [Link ?u, Get ?u] @ notifications ?run
      \<and> forecast_state ?run = Success data"
    if "?a 0 = Inr data"
  proof -
    from that have fr: "?fr = ([Link ?u, Get ?u], Inr data)"
      by (simp add: unf)
    then show ?thesis
      by (simp add: effects_flow states_flow(1) finished_def)
  qed
  from status bound all_fail third second first show ?thesis
    by blast
qed

theorem fetch_retry_policy_witness:
  "forecast_state (flow None ''k'' (scripted [Response 500 None, Response 500 None, Response 500 None])
       (secret_store [(''SLACK_WEBHOOK_URL_MHQ'', ''https://hooks.slack.com/services/T/B/X'')])
       (Response 200 None))
     = Failed (HTTPError 500 ''http://api.openweathermap.org/data/2.5/forecast?appid=k&q=San Francisco'')
   \<and> effects (flow None ''k'' (scripted [Response 500 None, Response 500 None, Response 500 None])
       (secret_store [(''SLACK_WEBHOOK_URL_MHQ'', ''https://hooks.slack.com/services/T/B/X'')])
       (Response 200 None))
     = [Link ''http://api.openweathermap.org/data/2.5/forecast?appid=k&q=San Francisco'',
        Get ''http://api.openweathermap.org/data/2.5/forecast?appid=k&q=San Francisco'',
        Wait 5,
        Link ''http://api.openweathermap.org/data/2.5/forecast?appid=k&q=San Francisco'',
        Get ''http://api.openweathermap.org/data/2.5/forecast?appid=k&q=San Francisco'',
        Wait 5,
        Link ''http://api.openweathermap.org/data/2.5/forecast?appid=k&q=San Francisco'',
        Get ''http://api.openweathermap.org/data/2.5/forecast?appid=k&q=San Francisco'']
   \<and> rain_notification_state
        (flow None ''k'' (scripted [Response 500 None, Response 500 None, Response 500 None])
       (secret_store [(''SLACK_WEBHOOK_URL_MHQ'', ''https://hooks.slack.com/services/T/B/X'')])
       (Response 200 None))
     = TriggerFailed
   \<and> dry_notification_state
        (flow None ''k'' (scripted [Response 500 None, Response 500 None, Response 500 None])
       (secret_store [(''SLACK_WEBHOOK_URL_MHQ'', ''https://hooks.slack.com/services/T/B/X'')])
       (Response 200 None))
     = TriggerFailed
   \<and> forecast_state (flow None ''k'' (scripted [Response 500 None, Response 500 None,
        Response 200 (Some (JObj [(''list'', JArr [JObj [(''rain'', JObj [(''3h'', JNum (Fin 2))])]])]))])
       (secret_store [(''SLACK_WEBHOOK_URL_MHQ'', ''https://hooks.slack.com/services/T/B/X'')])
       (Response 200 None))
     = Success (JObj [(''list'', JArr [JObj [(''rain'', JObj [(''3h'', JNum (Fin 2))])]])])
   \<and> rain_state (flow None ''k'' (scripted [Response 500 None, Response 500 None,
        Response 200 (Some (JObj [(''list'', JArr [JObj [(''rain'', JObj [(''3h'', JNum (Fin 2))])]])]))])
       (secret_store [(''SLACK_WEBHOOK_URL_MHQ'', ''https://hooks.slack.com/services/T/B/X'')])
       (Response 200 None))
     = Success True"
proof -
  let ?data = "JObj [(''list'', JArr [JObj [(''rain'', JObj [(''3h'', JNum (Fin 2))])]])]"
  let ?down = "scripted [Response 500 None, Response 500 None, Response 500 None]"
  let ?up = "scripted [Response 500 None, Response 500 None, Response 200 (Some ?data)]"
  let ?s = "secret_store [(''SLACK_WEBHOOK_URL_MHQ'', ''https://hooks.slack.com/services/T/B/X'')]"
  let ?e = "HTTPError 500 (forecast_url (city None) ''k'')"
  have d: "attempt None ''k'' ?down 0 = Inl ?e" "attempt None ''k'' ?down 1 = Inl ?e"
    "attempt None ''k'' ?down 2 = Inl ?e"
    by (simp_all add: attempt_def scripted_def pull_forecast_def raise_for_status_def Let_def)
  have u: "attempt None ''k'' ?up 0 = Inl ?e" "attempt None ''k'' ?up 1 = Inl ?e"
    "attempt None ''k'' ?up 2 = Inr ?data"
    by (simp_all add: attempt_def scripted_def pull_forecast_def raise_for_status_def Let_def)
  have c: "is_raining_this_week ?data = Inr True"
    by (simp add: is_raining_this_week_def sum_bools_def)
  from fetch_retry_policy [of 500 "''San Francisco''" "''k''" None None ?down ?s "Response 200 None"
      ?e ?e ?e ?data] d
  have 1: "effects (flow None ''k'' ?down ?s (Response 200 None)) =
      [Link (forecast_url (city None) ''k''), Get (forecast_url (city None) ''k''), Wait 5,
       Link (forecast_url (city None) ''k''), Get (forecast_url (city None) ''k''), Wait 5,
       Link (forecast_url (city None) ''k''), Get (forecast_url (city None) ''k'')]
     \<and> forecast_state (flow None ''k'' ?down ?s (Response 200 None)) = Failed ?e
     \<and> rain_notification_state (flow None ''k'' ?down ?s (Response 200 None)) = TriggerFailed
     \<and> dry_notification_state (flow None ''k'' ?down ?s (Response 200 None)) = TriggerFailed"
    by simp
  from fetch_retry_policy [of 500 "''San Francisco''" "''k''" None None ?up ?s "Response 200 None"
      ?e ?e ?e ?data] u
  have 2: "forecast_state (flow None ''k'' ?up ?s (Response 200 None)) = Success ?data
     \<and> rain_state (flow None ''k'' ?up ?s (Response 200 None)) = finished (is_raining_this_week ?data)"
    by simp
  from 1 2 c show ?thesis
    by (simp add: finished_def forecast_url_def base_url_def city_def)
qed

subsection \<open>The request URL\<close>

text \<open>
  Claim C8.  For every city and API key the fetcher addresses the endpoint
  \<^verbatim>\<open>/data/2.5/forecast\<close> of the weather provider, with the key as the query parameter
  \<^verbatim>\<open>appid\<close> and the city as the query parameter \<^verbatim>\<open>q\<close>; that URL is the one it
  requests, in every attempt of every run.
\<close>

theorem request_url:
  "forecast_url c key = ''http://api.openweathermap.org/data/2.5/forecast?appid='' @ key @ ''&q='' @ c
   \<and> fst (pull_forecast c key reply) = [Link (forecast_url c key), Get (forecast_url c key)]
   \<and> set (requests (flow given key replies secrets webhook)) = {forecast_url (city given) key}"
proof -
  from requests_flow [of given key replies secrets webhook]
  have "set (requests (flow given key replies secrets webhook)) = {forecast_url (city given) key}"
    by auto
  then show ?thesis
    by (simp add: forecast_url_def base_url_def pull_forecast_events)
qed

text \<open>
  Claim C9.  A run that is given no city behaves as the run given \<^verbatim>\<open>San Francisco\<close>:
  that is the city its requests name.
\<close>

theorem default_city:
  "city None = ''San Francisco''
   \<and> flow None key replies secrets webhook = flow (Some ''San Francisco'') key replies secrets webhook
   \<and> set (requests (flow None key replies secrets webhook))
       = {''http://api.openweathermap.org/data/2.5/forecast?appid='' @ key @ ''&q=San Francisco''}"
proof -
  have c: "city None = ''San Francisco''" "city (Some ''San Francisco'') = ''San Francisco''"
    by (simp_all add: city_def)
  from requests_flow [of None key replies secrets webhook]
  have "set (requests (flow None key replies secrets webhook)) = {forecast_url (city None) key}"
    by auto
  with c show ?thesis
    by (simp add: flow_def forecast_url_def base_url_def)
qed

text \<open>
  Claim C10.  The URL is the plain concatenation of its parts: the key and the city
  stand in it character for character and nothing is escaped, so the default city
  brings its space into the URL, and every \<^verbatim>\<open>&\<close> and \<^verbatim>\<open>=\<close> of the city or of the key
  is one more separator of the query string.
\<close>

theorem url_not_escaped:
  "forecast_url c key = base_url @ ''appid='' @ key @ ''&q='' @ c
   \<and> length (forecast_url c key) = length base_url + 6 + length key + 3 + length c
   \<and> sublist key (forecast_url c key)
   \<and> suffix c (forecast_url c key)
   \<and> forecast_url (city None) key
       = ''http://api.openweathermap.org/data/2.5/forecast?appid='' @ key @ ''&q=San Francisco''
   \<and> CHR '' '' \<in> set (forecast_url (city None) key)
   \<and> count_list (forecast_url c key) (CHR ''&'')
       = 1 + count_list key (CHR ''&'') + count_list c (CHR ''&'')
   \<and> count_list (forecast_url c key) (CHR ''='')
       = 2 + count_list key (CHR ''='') + count_list c (CHR ''='')"
proof -
  have a: "sublist key (forecast_url c key)"
  proof -
    have "forecast_url c key = (base_url @ ''appid='') @ key @ (''&q='' @ c)"
      by (simp add: forecast_url_def)
    then show ?thesis
      unfolding sublist_def by blast
  qed
  have b: "suffix c (forecast_url c key)"
    unfolding forecast_url_def by (simp add: suffix_def)
  have d: "count_list (forecast_url c key) (CHR ''&'')
       = 1 + count_list key (CHR ''&'') + count_list c (CHR ''&'')"
    by (simp add: forecast_url_def base_url_def)
  have e: "count_list (forecast_url c key) (CHR ''='')
       = 2 + count_list key (CHR ''='') + count_list c (CHR ''='')"
    by (simp add: forecast_url_def base_url_def)
  from a b d e show ?thesis
    by (simp add: forecast_url_def base_url_def city_def)
qed

subsection \<open>Where the API key goes\<close>

text \<open>
  Claim C6 does not hold as stated.  The API key is recorded and logged outside the
  HTTP request: the link artifact of a run holds the request URL, and with it the key,
  and so does the error of a fetch attempt that fails on the status of the response,
  which is logged and is kept in the state of the task.
\<close>

theorem api_key_in_link_artifact:
  "trace (flow None ''SECRET'' (scripted [Response 401 None, Response 401 None, Response 401 None])
        (secret_store [(''SLACK_WEBHOOK_URL_MHQ'', ''https://hooks.slack.com/services/T/B/X'')])
        (Response 200 None))
     = [Link ''http://api.openweathermap.org/data/2.5/forecast?appid=SECRET&q=San Francisco'',
        Get ''http://api.openweathermap.org/data/2.5/forecast?appid=SECRET&q=San Francisco'',
        Log ''pull_forecast''
          (HTTPError 401 ''http://api.openweathermap.org/data/2.5/forecast?appid=SECRET&q=San Francisco''),
        Wait 5,
        Link ''http://api.openweathermap.org/data/2.5/forecast?appid=SECRET&q=San Francisco'',
        Get ''http://api.openweathermap.org/data/2.5/forecast?appid=SECRET&q=San Francisco'',
        Log ''pull_forecast''
          (HTTPError 401 ''http://api.openweathermap.org/data/2.5/forecast?appid=SECRET&q=San Francisco''),
        Wait 5,
        Link ''http://api.openweathermap.org/data/2.5/forecast?appid=SECRET&q=San Francisco'',
        Get ''http://api.openweathermap.org/data/2.5/forecast?appid=SECRET&q=San Francisco'',
        Log ''pull_forecast''
          (HTTPError 401 ''http://api.openweathermap.org/data/2.5/forecast?appid=SECRET&q=San Francisco'')]
   \<and> forecast_state (flow None ''SECRET''
        (scripted [Response 401 None, Response 401 None, Response 401 None])
        (secret_store [(''SLACK_WEBHOOK_URL_MHQ'', ''https://hooks.slack.com/services/T/B/X'')])
        (Response 200 None))
     = Failed (HTTPError 401
         ''http://api.openweathermap.org/data/2.5/forecast?appid=SECRET&q=San Francisco'')
   \<and> sublist ''SECRET'' ''http://api.openweathermap.org/data/2.5/forecast?appid=SECRET&q=San Francisco''"
proof -
  have "''http://api.openweathermap.org/data/2.5/forecast?appid=SECRET&q=San Francisco''
      = ''http://api.openweathermap.org/data/2.5/forecast?appid='' @ ''SECRET'' @ ''&q=San Francisco''"
    by simp
  then have "sublist ''SECRET'' ''http://api.openweathermap.org/data/2.5/forecast?appid=SECRET&q=San Francisco''"
    unfolding sublist_def by blast
  then show ?thesis
    by (simp add: run_simps forecast_url_def base_url_def)
qed

text \<open>
  Claim C6, amended.  A run logs and records the API key only inside the request URL.
  Besides the HTTP request itself, that URL is recorded in a link artifact before each
  request, and it is named by the error of a fetch attempt that fails on the status of
  the response or on the connection; the error of the last failed attempt is logged and
  is the state of the fetch stage.  With the URL blanked out in the link artifacts, in
  the requests and in the errors of the fetch stage, the trace and the task states of a
  run are the same for any two API keys, when the weather provider, the secret store
  and the webhook answer the same; so are the Slack notifications.
\<close>

theorem api_key_only_in_urls:
  "sublist key (forecast_url (city given) key)
   \<and> (\<exists>j\<le>2. filter (\<lambda>ev. is_link ev \<or> is_get ev) (trace (flow given key replies secrets webhook))
         = concat (replicate (Suc j) [Link (forecast_url (city given) key),
                                      Get (forecast_url (city given) key)]))
   \<and> (400 \<le> s \<and> s < 600 \<longrightarrow>
        snd (pull_forecast c key (Response s body)) = Inl (HTTPError s (forecast_url c key)))
   \<and> snd (pull_forecast c key NoConnection) = Inl (ConnectionError (forecast_url c key))
   \<and> (forecast_state (flow given key replies secrets webhook) = Failed e \<longrightarrow>
        Log ''pull_forecast'' e \<in> set (trace (flow given key replies secrets webhook)))
   \<and> map no_urls (trace (flow given key replies secrets webhook))
       = map no_urls (trace (flow given key' replies secrets webhook))
   \<and> no_url_state (forecast_state (flow given key replies secrets webhook))
       = no_url_state (forecast_state (flow given key' replies secrets webhook))
   \<and> rain_state (flow given key replies secrets webhook)
       = rain_state (flow given key' replies secrets webhook)
   \<and> rain_notification_state (flow given key replies secrets webhook)
       = rain_notification_state (flow given key' replies secrets webhook)
   \<and> dry_notification_state (flow given key replies secrets webhook)
       = dry_notification_state (flow given key' replies secrets webhook)
   \<and> notifications (flow given key replies secrets webhook)
       = notifications (flow given key' replies secrets webhook)"
proof -
  let ?run = "flow given key replies secrets webhook"
  let ?run' = "flow given key' replies secrets webhook"
  let ?fr = "\<lambda>k. run_with_retries max_retries retry_delay
      (\<lambda>i. logged ''pull_forecast'' (pull_forecast (city given) k (replies i))) 0"
  have "forecast_url (city given) key = (base_url @ ''appid='') @ key @ (''&q='' @ city given)"
    by (simp add: forecast_url_def)
  then have s: "sublist key (forecast_url (city given) key)"
    unfolding sublist_def by blast
  from requests_flow [of given key replies secrets webhook]
  have l: "\<exists>j\<le>2. filter (\<lambda>ev. is_link ev \<or> is_get ev) (trace ?run)
         = concat (replicate (Suc j) [Link (forecast_url (city given) key),
                                      Get (forecast_url (city given) key)])"
    by blast
  have h: "400 \<le> s \<and> s < 600 \<longrightarrow>
        snd (pull_forecast c key (Response s body)) = Inl (HTTPError s (forecast_url c key))"
    by (simp add: error_status_raises)
  have n: "snd (pull_forecast c key NoConnection) = Inl (ConnectionError (forecast_url c key))"
    by (simp add: pull_forecast_def Let_def)
  have g: "forecast_state ?run = Failed e \<longrightarrow> Log ''pull_forecast'' e \<in> set (trace ?run)"
    by (simp add: failure_logged)
  have r: "no_url_result (snd (?fr key)) = no_url_result (snd (?fr key'))"
    by (rule fetch_result_key)
  have f: "no_url_state (forecast_state ?run) = no_url_state (forecast_state ?run')"
    by (simp add: states_flow(1) result_key_state(1) [OF r])
  have cl: "run_task ''is_raining_this_week'' (finished (snd (?fr key))) is_raining_this_week
      = run_task ''is_raining_this_week'' (finished (snd (?fr key'))) is_raining_this_week"
    by (rule result_key_state(2) [OF r])
  then have rs: "rain_state ?run = rain_state ?run'"
    by (simp add: flow_unfold Let_def)
  then have ns: "rain_notification_state ?run = rain_notification_state ?run'"
    "dry_notification_state ?run = dry_notification_state ?run'"
    "notifications ?run = notifications ?run'"
    by (simp_all add: states_flow(3,4) notifications_flow)
  have t: "map no_urls (trace ?run) = map no_urls (trace ?run')"
    by (simp add: flow_unfold Let_def no_urls_downstream cl
          fetch_events_key [of _ _ _ key replies _ key'])
  from s l h n g t f rs ns show ?thesis
    by blast
qed

theorem api_key_only_in_urls_witness:
  "forecast_state (flow None ''SECRET'' (scripted [Response 401 None, Response 401 None, Response 401 None])
        (secret_store []) NoConnection)
     = Failed (HTTPError 401
         ''http://api.openweathermap.org/data/2.5/forecast?appid=SECRET&q=San Francisco'')
   \<and> Log ''pull_forecast'' (HTTPError 401
         ''http://api.openweathermap.org/data/2.5/forecast?appid=SECRET&q=San Francisco'')
       \<in> set (trace (flow None ''SECRET''
             (scripted [Response 401 None, Response 401 None, Response 401 None])
             (secret_store []) NoConnection))
   \<and> snd (pull_forecast ''San Francisco'' ''SECRET'' (Response 401 None))
     = Inl (HTTPError 401
         ''http://api.openweathermap.org/data/2.5/forecast?appid=SECRET&q=San Francisco'')"
proof -
  let ?run = "flow None ''SECRET'' (scripted [Response 401 None, Response 401 None, Response 401 None])
        (secret_store []) NoConnection"
  let ?e = "HTTPError 401 ''http://api.openweathermap.org/data/2.5/forecast?appid=SECRET&q=San Francisco''"
  have f: "forecast_state ?run = Failed ?e"
    by (simp add: run_simps forecast_url_def base_url_def)
  have u: "forecast_url ''San Francisco'' ''SECRET''
      = ''http://api.openweathermap.org/data/2.5/forecast?appid=SECRET&q=San Francisco''"
    by (simp add: forecast_url_def base_url_def)
  from api_key_only_in_urls [of "''SECRET''" None
      "scripted [Response 401 None, Response 401 None, Response 401 None]" "secret_store []"
      NoConnection 401 "''San Francisco''" None ?e "''OTHER''"] f u
  show ?thesis
    by simp
qed

end
